theory Spec2Isabelle
  imports Main "HOL-Library.Word"
begin

section \<open>Data model of the contract instance decoder\<close>

text \<open>
  The development follows \<^verbatim>\<open>packages/truffle-decoder/lib/contract.ts\<close>, class
  \<^verbatim>\<open>TruffleContractInstanceDecoder\<close>. Integers of the source are \<^verbatim>\<open>BN\<close> values or
  JavaScript numbers holding integers; both are unbounded here (\<^typ>\<open>int\<close>).
\<close>

text \<open>
  A run-time failure of the source. The only failure \<^verbatim>\<open>contract.ts\<close> produces by itself is
  the \<^verbatim>\<open>TypeError\<close> of reading a property of \<^verbatim>\<open>undefined\<close>; \<open>LibraryError\<close> stands for an
  exception thrown inside a library the source calls.
\<close>

datatype error = TypeError | LibraryError

text \<open>
  An AST node describing a type (\<^verbatim>\<open>AstDefinition\<close>). The source reads a node only through
  \<^verbatim>\<open>name\<close>, \<^verbatim>\<open>id\<close>, \<^verbatim>\<open>DefinitionUtils.typeClass\<close>, \<^verbatim>\<open>DefinitionUtils.typeId\<close>,
  \<^verbatim>\<open>DefinitionUtils.isDynamicArray\<close> and the children \<^verbatim>\<open>baseType\<close>, \<^verbatim>\<open>keyType\<close>,
  \<^verbatim>\<open>valueType\<close>; a node carries exactly what these read. The constructor is the type class:
  \<^verbatim>\<open>"array"\<close>, \<^verbatim>\<open>"mapping"\<close>, \<^verbatim>\<open>"struct"\<close>, or any other class.
\<close>

datatype ast_definition =
    ArrayDefinition string int ast_definition bool
  | MappingDefinition string int ast_definition ast_definition
  | StructDefinition string int int
  | OtherDefinition string int

fun def_name :: "ast_definition \<Rightarrow> string" where
  "def_name (ArrayDefinition n i b d) = n"
| "def_name (MappingDefinition n i k v) = n"
| "def_name (StructDefinition n i t) = n"
| "def_name (OtherDefinition n i) = n"

fun def_id :: "ast_definition \<Rightarrow> int" where
  "def_id (ArrayDefinition n i b d) = i"
| "def_id (MappingDefinition n i k v) = i"
| "def_id (StructDefinition n i t) = i"
| "def_id (OtherDefinition n i) = i"

text \<open>
  An index as a caller passes it (\<^verbatim>\<open>any\<close> in the source): a \<^verbatim>\<open>BN\<close>, a number, a string or a
  boolean.
\<close>

datatype raw_index = RawBN int | RawNumber int | RawString string | RawBoolean bool

text \<open>
  \<^verbatim>\<open>Values.ElementaryValue\<close>: a value tagged with its elementary type. The tag is the key
  type's node, the payload is the index in its coerced form.
\<close>

datatype payload = IntegerPayload int | BytesPayload "8 word list" | BooleanPayload bool
  | StringPayload string

datatype elementary_value = ElementaryValue ast_definition payload

text \<open>
  \<^verbatim>\<open>Codec.Slot\<close>: \<^verbatim>\<open>path\<close>, \<^verbatim>\<open>hashPath\<close> and \<^verbatim>\<open>key\<close> are optional fields, \<^verbatim>\<open>offset\<close> is a
  \<^verbatim>\<open>BN\<close>.
\<close>

datatype slot = Slot (path: "slot option") (offset: int) (hashPath: "bool option")
  (key: "elementary_value option")

text \<open>
  \<^verbatim>\<open>Codec.StorageMemberAllocation\<close>: a definition and a pointer. A pointer with location
  \<^verbatim>\<open>"storage"\<close> holds \<^verbatim>\<open>range.from.slot\<close>; any other pointer is the constant marker.
\<close>

datatype pointer = StoragePointer slot | ConstantDefinitionPointer

record allocation =
  alloc_definition :: ast_definition
  alloc_pointer :: pointer

text \<open>\<^verbatim>\<open>Codec.StorageLength\<close>: a size in bytes or in whole words.\<close>

datatype storage_length = BytesLength nat | WordsLength nat

text \<open>The first argument of \<^verbatim>\<open>constructSlot\<close>: \<^verbatim>\<open>number | string\<close>.\<close>

datatype variable = VariableNumber int | VariableString string

text \<open>
  What an instance decoder is constructed with and never changes afterwards, together with
  the helpers of other packages that \<^verbatim>\<open>constructSlot\<close> calls and whose code is not part of
  \<^verbatim>\<open>contract.ts\<close>:
  \<^item> \<open>stateVariableReferences\<close>: the allocations of the contract's state variables;
  \<^item> \<open>storageMembers\<close>: \<^verbatim>\<open>this.allocations.storage[id].members\<close>, by struct id;
  \<^item> \<open>storageSize\<close>: \<^verbatim>\<open>Codec.storageSize(definition, referenceDeclarations, allocations.storage)\<close>;
  \<^item> \<open>newBN\<close>: the \<^verbatim>\<open>BN\<close> constructor applied to an index that is not a \<^verbatim>\<open>BN\<close>;
  \<^item> \<open>wrapElementaryViaDefinition\<close>: the coercion of a raw index to a value of a key type;
  \<^item> \<open>looseEquals\<close>: the language's \<^verbatim>\<open>==\<close> between a node id and a string.
\<close>

record env =
  stateVariableReferences :: "allocation list"
  storageMembers :: "int \<Rightarrow> allocation list option"
  storageSize :: "ast_definition \<Rightarrow> storage_length"
  newBN :: "raw_index \<Rightarrow> error + int"
  wrapElementaryViaDefinition :: "raw_index \<Rightarrow> ast_definition \<Rightarrow> error + elementary_value"
  looseEquals :: "int \<Rightarrow> string \<Rightarrow> bool"

section \<open>Slot construction\<close>

text \<open>
  The predicate of both \<^verbatim>\<open>find\<close> calls on \<^verbatim>\<open>stateVariableReferences\<close>:
  \<^verbatim>\<open>definition.name === variable || definition.id == variable\<close>. A number is never
  \<^verbatim>\<open>===\<close> to a name.
\<close>

fun matchesVariable :: "env \<Rightarrow> variable \<Rightarrow> allocation \<Rightarrow> bool" where
  "matchesVariable e (VariableString s) a =
     (def_name (alloc_definition a) = s \<or> looseEquals e (def_id (alloc_definition a)) s)"
| "matchesVariable e (VariableNumber n) a = (def_id (alloc_definition a) = n)"

text \<open>
  The base case of \<^verbatim>\<open>constructSlot\<close> (no indices). \<^verbatim>\<open>find\<close> gives \<^verbatim>\<open>undefined\<close> when no
  allocation matches, and \<^verbatim>\<open>allocation.definition\<close> then throws. \<open>None\<close> is the pair
  \<^verbatim>\<open>[undefined, undefined]\<close>.
\<close>

definition locateVariable :: "env \<Rightarrow> variable \<Rightarrow> error + (slot \<times> ast_definition) option" where
  "locateVariable e v =
     (case find (matchesVariable e v) (stateVariableReferences e) of
        None \<Rightarrow> Inl TypeError
      | Some a \<Rightarrow>
          (case alloc_pointer a of
             ConstantDefinitionPointer \<Rightarrow> Inr None
           | StoragePointer s \<Rightarrow> Inr (Some (s, alloc_definition a))))"

text \<open>
  The index of the array case: \<^verbatim>\<open>rawIndex instanceof BN ? rawIndex.clone() : new BN(rawIndex)\<close>.
\<close>

fun arrayIndex :: "env \<Rightarrow> raw_index \<Rightarrow> error + int" where
  "arrayIndex e (RawBN b) = Inr b"
| "arrayIndex e r = newBN e r"

text \<open>
  The member of the struct case. A number selects \<^verbatim>\<open>members[index]\<close>, anything else the
  first member whose name is \<^verbatim>\<open>===\<close> to the raw index (only a string can be). Reading
  \<^verbatim>\<open>members\<close> of a missing struct allocation, or \<^verbatim>\<open>definition\<close> of a missing member, throws.
\<close>

fun structMember :: "allocation list \<Rightarrow> raw_index \<Rightarrow> allocation option" where
  "structMember ms (RawNumber i) =
     (if 0 \<le> i \<and> i < int (length ms) then Some (ms ! nat i) else None)"
| "structMember ms (RawString s) = find (\<lambda>a. def_name (alloc_definition a) = s) ms"
| "structMember ms r = None"

text \<open>
  One step of the main case: the \<^verbatim>\<open>switch\<close> on the parent's type class, for a parent slot
  that is defined.
\<close>

fun indexInto :: "env \<Rightarrow> slot \<Rightarrow> ast_definition \<Rightarrow> raw_index \<Rightarrow>
    error + (slot \<times> ast_definition) option" where
  "indexInto e parentSlot (ArrayDefinition n i base dyn) rawIndex =
     (case arrayIndex e rawIndex of
        Inl x \<Rightarrow> Inl x
      | Inr index \<Rightarrow>
          (case storageSize e base of
             BytesLength b \<Rightarrow> Inr None
           | WordsLength w \<Rightarrow>
               Inr (Some (Slot (Some parentSlot) (index * int w) (Some dyn) None, base))))"
| "indexInto e parentSlot (MappingDefinition n i keyDefinition valueDefinition) rawIndex =
     (case wrapElementaryViaDefinition e rawIndex keyDefinition of
        Inl x \<Rightarrow> Inl x
      | Inr k \<Rightarrow> Inr (Some (Slot (Some parentSlot) 0 None (Some k), valueDefinition)))"
| "indexInto e parentSlot (StructDefinition n i parentId) rawIndex =
     (case storageMembers e parentId of
        None \<Rightarrow> Inl TypeError
      | Some ms \<Rightarrow>
          (case structMember ms rawIndex of
             None \<Rightarrow> Inl TypeError
           | Some a \<Rightarrow>
               (case alloc_pointer a of
                  ConstantDefinitionPointer \<Rightarrow> Inl TypeError
                | StoragePointer s \<Rightarrow>
                    Inr (Some (Slot (Some parentSlot) (offset s) None None,
                      alloc_definition a)))))"
| "indexInto e parentSlot (OtherDefinition n i) rawIndex = Inr None"

text \<open>
  \<^verbatim>\<open>constructSlot(variable, ...indices)\<close>: the recursion is on \<^verbatim>\<open>indices.slice(0, -1)\<close>.
\<close>

function constructSlot :: "env \<Rightarrow> variable \<Rightarrow> raw_index list \<Rightarrow>
    error + (slot \<times> ast_definition) option" where
  "constructSlot e v indices =
     (if indices = [] then locateVariable e v
      else
        (case constructSlot e v (butlast indices) of
           Inl x \<Rightarrow> Inl x
         | Inr None \<Rightarrow> Inr None
         | Inr (Some (parentSlot, parentDefinition)) \<Rightarrow>
             indexInto e parentSlot parentDefinition (last indices)))"
  by pat_completeness auto
termination
  by (relation "measure (\<lambda>(e, v, indices). length indices)") auto

section \<open>The mapping key registry\<close>

text \<open>
  Modelled from the spec: \<^verbatim>\<open>Codec.equalSlots\<close>, whose code is in another package. Two slots
  are equal iff every level of their chains is equal in offset, \<^verbatim>\<open>hashPath\<close> and key and the
  parents are recursively equal; an absent slot is equal to an absent slot only.
\<close>

fun equalSlots :: "slot option \<Rightarrow> slot option \<Rightarrow> bool" where
  "equalSlots None None = True"
| "equalSlots None (Some s2) = False"
| "equalSlots (Some s1) None = False"
| "equalSlots (Some (Slot p1 o1 h1 k1)) (Some (Slot p2 o2 h2 k2)) =
     (o1 = o2 \<and> h1 = h2 \<and> k1 = k2 \<and> equalSlots p1 p2)"

text \<open>
  The loop of \<^verbatim>\<open>watchMappingKey\<close>: while the slot is defined and no registered slot equals
  it, append it if it has a key, and go on with its parent.
\<close>

fun watchLoop :: "slot list \<Rightarrow> slot option \<Rightarrow> slot list" where
  "watchLoop mappingKeys None = mappingKeys"
| "watchLoop mappingKeys (Some (Slot p off h k)) =
     (if list_all (\<lambda>existingSlot. \<not> equalSlots (Some existingSlot) (Some (Slot p off h k)))
           mappingKeys
      then watchLoop (if k \<noteq> None then mappingKeys @ [Slot p off h k] else mappingKeys) p
      else mappingKeys)"

text \<open>\<^verbatim>\<open>watchMappingKey(variable, ...indices)\<close>, on the registry \<^verbatim>\<open>this.mappingKeys\<close>.\<close>

definition watchMappingKey :: "env \<Rightarrow> variable \<Rightarrow> raw_index list \<Rightarrow> slot list \<Rightarrow>
    error + slot list" where
  "watchMappingKey e v indices mappingKeys =
     (case constructSlot e v indices of
        Inl x \<Rightarrow> Inl x
      | Inr r \<Rightarrow> Inr (watchLoop mappingKeys (map_option fst r)))"

text \<open>
  The predicate of the \<^verbatim>\<open>filter\<close> in \<^verbatim>\<open>unwatchMappingKey\<close>: walk from the registered slot
  toward the root; a match with the target removes the slot, the end of the chain keeps it.
\<close>

fun unwatchKeeps :: "slot \<Rightarrow> slot option \<Rightarrow> bool" where
  "unwatchKeeps target None = True"
| "unwatchKeeps target (Some (Slot p off h k)) =
     (if equalSlots (Some (Slot p off h k)) (Some target) then False
      else unwatchKeeps target p)"

text \<open>\<^verbatim>\<open>unwatchMappingKey(variable, ...indices)\<close>.\<close>

definition unwatchMappingKey :: "env \<Rightarrow> variable \<Rightarrow> raw_index list \<Rightarrow> slot list \<Rightarrow>
    error + slot list" where
  "unwatchMappingKey e v indices mappingKeys =
     (case constructSlot e v indices of
        Inl x \<Rightarrow> Inl x
      | Inr None \<Rightarrow> Inr mappingKeys
      | Inr (Some (target, d)) \<Rightarrow>
          Inr (filter (\<lambda>existingSlot. unwatchKeeps target (Some existingSlot)) mappingKeys))"

text \<open>
  The calls a user of an instance decoder makes on the registry. A call that throws leaves
  \<^verbatim>\<open>this.mappingKeys\<close> as it was: both methods assign it only after \<^verbatim>\<open>constructSlot\<close> has
  returned. The registry of a new instance is empty.
\<close>

datatype registry_call =
    Watch variable "raw_index list"
  | Unwatch variable "raw_index list"

fun registryCall :: "env \<Rightarrow> registry_call \<Rightarrow> slot list \<Rightarrow> error + slot list" where
  "registryCall e (Watch v indices) mappingKeys = watchMappingKey e v indices mappingKeys"
| "registryCall e (Unwatch v indices) mappingKeys = unwatchMappingKey e v indices mappingKeys"

fun afterCalls :: "env \<Rightarrow> registry_call list \<Rightarrow> slot list \<Rightarrow> slot list" where
  "afterCalls e [] mappingKeys = mappingKeys"
| "afterCalls e (c # cs) mappingKeys =
     (case registryCall e c mappingKeys of
        Inl x \<Rightarrow> afterCalls e cs mappingKeys
      | Inr mappingKeys' \<Rightarrow> afterCalls e cs mappingKeys')"

text \<open>
  The chain of a slot, leaf first: the slot, its parent, and so on to the root. This is the
  order in which both walks above visit the slots.
\<close>

fun chain :: "slot option \<Rightarrow> slot list" where
  "chain None = []"
| "chain (Some (Slot p off h k)) = Slot p off h k # chain p"

section \<open>The storage word cache\<close>

text \<open>
  \<^verbatim>\<open>DecoderTypes.StorageCache\<close>: three nested objects, indexed by block number, by address
  and by \<^verbatim>\<open>slot.toString()\<close>; an absent property is \<open>None\<close>. Addresses are the hex strings
  the chain accepts, so no key is a property name that every object inherits.
\<close>

type_synonym word_bytes = "8 word list"

type_synonym storage_cache = "int \<Rightarrow> (string \<Rightarrow> (string \<Rightarrow> word_bytes option) option) option"

text \<open>\<^verbatim>\<open>BN.prototype.toString()\<close>: the decimal numeral of the integer.\<close>

fun natToString :: "nat \<Rightarrow> string" where
  "natToString n =
     (if n < 10 then [''0123456789'' ! n]
      else natToString (n div 10) @ [''0123456789'' ! (n mod 10)])"

definition toString :: "int \<Rightarrow> string" where
  "toString i = (if i < 0 then CHR ''-'' # natToString (nat (- i)) else natToString (nat i))"

text \<open>
  \<^verbatim>\<open>CodecUtils.EVM.WORD_SIZE\<close>, a constant of package \<^verbatim>\<open>truffle-codec-utils\<close>: the 32 bytes
  of a storage word.
\<close>

definition WORD_SIZE :: nat where
  "WORD_SIZE = 32"

text \<open>
  \<^verbatim>\<open>CodecUtils.Conversion.toBytes(data, length)\<close> on a string. The function is code of
  package \<^verbatim>\<open>truffle-codec-utils\<close> and the spec does not describe it; the definition follows
  the function as the package has it, where \<^verbatim>\<open>length\<close> is a minimum output length: a
  leading \<^verbatim>\<open>0x\<close> is dropped; no digit gives no byte; an odd number of digits gets a
  leading \<^verbatim>\<open>0\<close>; each pair of digits is one byte; a result shorter than \<^verbatim>\<open>length\<close> is
  padded with zero bytes on the left, a longer one is returned as it is. The text is taken
  to hold hex digits only (a character that is none counts as zero here).
\<close>

definition hexDigits :: "string \<Rightarrow> string" where
  "hexDigits data = (if take 2 data = ''0x'' then drop 2 data else data)"

definition hexDigitValue :: "char \<Rightarrow> nat" where
  "hexDigitValue c =
     (if c \<in> set ''0123456789'' then of_char c - 48
      else if c \<in> set ''abcdef'' then of_char c - 87
      else if c \<in> set ''ABCDEF'' then of_char c - 55
      else 0)"

fun hexPairs :: "string \<Rightarrow> word_bytes" where
  "hexPairs (a # b # rest) = of_nat (16 * hexDigitValue a + hexDigitValue b) # hexPairs rest"
| "hexPairs rest = []"

definition toBytes :: "string \<Rightarrow> nat \<Rightarrow> word_bytes" where
  "toBytes data len =
     (let hex = hexDigits data
      in if hex = [] then []
         else
           (let bytes = hexPairs (if odd (length hex) then CHR ''0'' # hex else hex)
            in if length bytes < len then replicate (len - length bytes) 0 @ bytes
               else bytes))"

text \<open>
  The state that \<^verbatim>\<open>getStorage\<close> works on: the cache of the instance, and the log of the
  reads issued to the chain-access collaborator \<^verbatim>\<open>web3.eth.getStorageAt\<close> so far, as
  triples (block, address, slot).
\<close>

record cache_state =
  storageCache :: storage_cache
  chainReads :: "(int \<times> string \<times> int) list"

text \<open>\<^verbatim>\<open>this.storageCache[block][address][key]\<close>, \<open>None\<close> where a level or the entry is absent.\<close>

definition cached :: "storage_cache \<Rightarrow> int \<Rightarrow> string \<Rightarrow> string \<Rightarrow> word_bytes option" where
  "cached c block address k =
     (case c block of
        None \<Rightarrow> None
      | Some byAddress \<Rightarrow> (case byAddress address of None \<Rightarrow> None | Some bySlot \<Rightarrow> bySlot k))"

text \<open>The two \<^verbatim>\<open>if\<close> statements that create the missing levels.\<close>

definition ensureLevels :: "storage_cache \<Rightarrow> int \<Rightarrow> string \<Rightarrow> storage_cache" where
  "ensureLevels c block address =
     (let c1 = (if c block = None then c(block \<mapsto> Map.empty) else c)
      in (case c1 block of
            None \<Rightarrow> c1
          | Some byAddress \<Rightarrow>
              if byAddress address = None then c1(block \<mapsto> byAddress(address \<mapsto> Map.empty))
              else c1))"

text \<open>
  \<^verbatim>\<open>this.storageCache[block][address][key] = word\<close>. Where a level is absent the
  assignment reads a property of \<^verbatim>\<open>undefined\<close> and throws: \<open>None\<close>.
\<close>

definition storeWord :: "storage_cache \<Rightarrow> int \<Rightarrow> string \<Rightarrow> string \<Rightarrow> word_bytes \<Rightarrow>
    storage_cache option" where
  "storeWord c block address k word =
     (case c block of
        None \<Rightarrow> None
      | Some byAddress \<Rightarrow>
          (case byAddress address of
             None \<Rightarrow> None
           | Some bySlot \<Rightarrow> Some (c(block \<mapsto> byAddress(address \<mapsto> bySlot(k \<mapsto> word))))))"

text \<open>
  \<^verbatim>\<open>getStorage(address, slot, block)\<close> is an \<^verbatim>\<open>async\<close> method and runs in two segments.
  The first creates the levels, tests the cache and, on a hit, returns the entry; on a miss
  it issues the read to the chain and suspends at \<^verbatim>\<open>await\<close>. Other code of the instance,
  other calls of \<^verbatim>\<open>getStorage\<close> among it, may run before the read settles.
\<close>

datatype started = Returned word_bytes | Awaiting

definition getStorageStart :: "string \<Rightarrow> int \<Rightarrow> int \<Rightarrow> cache_state \<Rightarrow> started \<times> cache_state" where
  "getStorageStart address slot block st =
     (let c = ensureLevels (storageCache st) block address
      in (case cached c block address (toString slot) of
            Some word \<Rightarrow> (Returned word, st\<lparr>storageCache := c\<rparr>)
          | None \<Rightarrow>
              (Awaiting,
               \<lparr>storageCache = c, chainReads = chainReads st @ [(block, address, slot)]\<rparr>)))"

text \<open>
  The second segment runs when the read settles. The chain either rejects the read, and the
  rejection leaves \<^verbatim>\<open>getStorage\<close> as it came, or answers with hex text, which is converted,
  stored in the cache and returned.
\<close>

definition getStorageSettle :: "string \<Rightarrow> int \<Rightarrow> int \<Rightarrow> error + string \<Rightarrow> cache_state \<Rightarrow>
    (error + word_bytes) \<times> cache_state" where
  "getStorageSettle address slot block reply st =
     (case reply of
        Inl x \<Rightarrow> (Inl x, st)
      | Inr hex \<Rightarrow>
          (let word = toBytes hex WORD_SIZE
           in (case storeWord (storageCache st) block address (toString slot) word of
                 None \<Rightarrow> (Inl TypeError, st)
               | Some c \<Rightarrow> (Inr word, st\<lparr>storageCache := c\<rparr>))))"

text \<open>
  A call of \<^verbatim>\<open>getStorage\<close> that runs to its end with nothing of the instance running in
  between; \<open>reply\<close> is what the chain does with the read, if the call issues one.
\<close>

definition getStorage :: "string \<Rightarrow> int \<Rightarrow> int \<Rightarrow> error + string \<Rightarrow> cache_state \<Rightarrow>
    (error + word_bytes) \<times> cache_state" where
  "getStorage address slot block reply st =
     (case getStorageStart address slot block st of
        (Returned word, st') \<Rightarrow> (Inr word, st')
      | (Awaiting, st') \<Rightarrow> getStorageSettle address slot block reply st')"

text \<open>
  A sequence of such calls, each with its (address, slot, block) and the chain's reply, one
  completed before the next starts. The state of a new instance has an empty cache and no
  read issued.
\<close>

fun getStorageCalls :: "(string \<times> int \<times> int \<times> (error + string)) list \<Rightarrow> cache_state \<Rightarrow>
    cache_state" where
  "getStorageCalls [] st = st"
| "getStorageCalls ((address, slot, block, reply) # calls) st =
     getStorageCalls calls (snd (getStorage address slot block reply st))"

definition newInstance :: cache_state where
  "newInstance = \<lparr>storageCache = Map.empty, chainReads = []\<rparr>"

text \<open>
  The segments of calls in any order of execution: calls may overlap, a second call
  starting before the read of the first has settled.
\<close>

datatype segment =
    Start string int int
  | Settle string int int "error + string"

fun runSegment :: "segment \<Rightarrow> cache_state \<Rightarrow> cache_state" where
  "runSegment (Start address slot block) st = snd (getStorageStart address slot block st)"
| "runSegment (Settle address slot block reply) st =
     snd (getStorageSettle address slot block reply st)"

fun afterSegments :: "segment list \<Rightarrow> cache_state \<Rightarrow> cache_state" where
  "afterSegments [] st = st"
| "afterSegments (g # gs) st = afterSegments gs (runSegment g st)"

text \<open>
  A reply that is a storage word: hex text of at least one digit and of at most 32 bytes.
\<close>

definition wordText :: "string \<Rightarrow> bool" where
  "wordText hex \<longleftrightarrow> hexDigits hex \<noteq> [] \<and> length (hexDigits hex) \<le> 64"

fun wordReply :: "error + string \<Rightarrow> bool" where
  "wordReply (Inl x) = True"
| "wordReply (Inr hex) = wordText hex"

fun wordSegment :: "segment \<Rightarrow> bool" where
  "wordSegment (Start address slot block) = True"
| "wordSegment (Settle address slot block reply) = wordReply reply"


section \<open>An example contract\<close>

text \<open>
  The allocations of a contract with the state variables
  \<^verbatim>\<open>mapping(string => mapping(uint => uint)) a\<close> (slot 0), \<^verbatim>\<open>uint[] xs\<close> (slot 1),
  \<^verbatim>\<open>uint constant c\<close> (no slot), \<^verbatim>\<open>uint128[4] halves\<close> (slot 2),
  \<^verbatim>\<open>mapping(address => uint) balances\<close> (slot 4) and \<^verbatim>\<open>uint[2][] rows\<close> (slot 5), and
  stand-ins for the helpers of other packages. The storage size of an elementary type is
  measured in bytes (32 for \<^verbatim>\<open>uint\<close>, 16 for \<^verbatim>\<open>uint128\<close>, 20 for an address); that of a
  string, a mapping and a dynamic array is one word, that of the two static arrays two
  words. The \<^verbatim>\<open>BN\<close> constructor converts a number to itself. The coercion of a key accepts
  a string for a string key, a non-negative number or \<^verbatim>\<open>BN\<close> for a \<^verbatim>\<open>uint\<close> key and
  \<^verbatim>\<open>0x\<close> with 40 digits for an address key, and throws on anything else. \<^verbatim>\<open>==\<close>
  compares an id with its decimal numeral.
\<close>

fun exampleStorageSize :: "ast_definition \<Rightarrow> storage_length" where
  "exampleStorageSize (OtherDefinition n i) =
     (if n = ''uint128'' then BytesLength 16
      else if n = ''address'' then BytesLength 20
      else if n = ''string'' then WordsLength 1
      else BytesLength 32)"
| "exampleStorageSize (MappingDefinition n i k v) = WordsLength 1"
| "exampleStorageSize (ArrayDefinition n i b dyn) = (if dyn then WordsLength 1 else WordsLength 2)"
| "exampleStorageSize (StructDefinition n i t) = WordsLength 2"

fun exampleNewBN :: "raw_index \<Rightarrow> error + int" where
  "exampleNewBN (RawNumber n) = Inr n"
| "exampleNewBN r = Inl LibraryError"

fun exampleWrap :: "raw_index \<Rightarrow> ast_definition \<Rightarrow> error + elementary_value" where
  "exampleWrap (RawString s) (OtherDefinition n i) =
     (if n = ''string'' \<or> n = ''address'' \<and> length s = 42 \<and> take 2 s = ''0x''
      then Inr (ElementaryValue (OtherDefinition n i) (StringPayload s))
      else Inl LibraryError)"
| "exampleWrap (RawNumber k) (OtherDefinition n i) =
     (if n = ''uint256'' \<and> 0 \<le> k
      then Inr (ElementaryValue (OtherDefinition n i) (IntegerPayload k))
      else Inl LibraryError)"
| "exampleWrap (RawBN k) (OtherDefinition n i) =
     (if n = ''uint256'' \<and> 0 \<le> k
      then Inr (ElementaryValue (OtherDefinition n i) (IntegerPayload k))
      else Inl LibraryError)"
| "exampleWrap r d = Inl LibraryError"

definition exampleEnv :: env where
  "exampleEnv =
     \<lparr>stateVariableReferences =
        [\<lparr>alloc_definition =
            MappingDefinition ''a'' 1 (OtherDefinition ''string'' 11)
              (MappingDefinition [] 12 (OtherDefinition ''uint256'' 13)
                (OtherDefinition ''uint256'' 14)),
          alloc_pointer = StoragePointer (Slot None 0 None None)\<rparr>,
         \<lparr>alloc_definition = ArrayDefinition ''xs'' 2 (OtherDefinition ''uint256'' 21) True,
          alloc_pointer = StoragePointer (Slot None 1 None None)\<rparr>,
         \<lparr>alloc_definition = OtherDefinition ''c'' 3,
          alloc_pointer = ConstantDefinitionPointer\<rparr>,
         \<lparr>alloc_definition = ArrayDefinition ''halves'' 4 (OtherDefinition ''uint128'' 41) False,
          alloc_pointer = StoragePointer (Slot None 2 None None)\<rparr>,
         \<lparr>alloc_definition =
            MappingDefinition ''balances'' 5 (OtherDefinition ''address'' 51)
              (OtherDefinition ''uint256'' 52),
          alloc_pointer = StoragePointer (Slot None 4 None None)\<rparr>,
         \<lparr>alloc_definition =
            ArrayDefinition ''rows'' 6
              (ArrayDefinition [] 61 (OtherDefinition ''uint256'' 62) False) True,
          alloc_pointer = StoragePointer (Slot None 5 None None)\<rparr>],
      storageMembers = (\<lambda>i. None),
      storageSize = exampleStorageSize,
      newBN = exampleNewBN,
      wrapElementaryViaDefinition = exampleWrap,
      looseEquals = (\<lambda>i s. toString i = s)\<rparr>"

text \<open>
  The slots of \<^verbatim>\<open>a\<close>, of \<^verbatim>\<open>a["b"]\<close> and of \<^verbatim>\<open>a["b"][5]\<close> in the example contract, an
  address, and the slot of \<^verbatim>\<open>balances\<close> at that address.
\<close>

definition exampleRoot :: slot where
  "exampleRoot = Slot None 0 None None"

definition exampleInner :: slot where
  "exampleInner =
     Slot (Some exampleRoot) 0 None
       (Some (ElementaryValue (OtherDefinition ''string'' 11) (StringPayload ''b'')))"

definition exampleLeaf :: slot where
  "exampleLeaf =
     Slot (Some exampleInner) 0 None
       (Some (ElementaryValue (OtherDefinition ''uint256'' 13) (IntegerPayload 5)))"

definition exampleAddress :: string where
  "exampleAddress = ''0x00000000000000000000000000000000000000ab''"

definition exampleBalance :: slot where
  "exampleBalance =
     Slot (Some (Slot None 4 None None)) 0 None
       (Some (ElementaryValue (OtherDefinition ''address'' 51) (StringPayload exampleAddress)))"

text \<open>
  Replies of the chain and calls of \<^verbatim>\<open>getStorage\<close>: \<open>exampleWord\<close> is the word of the
  reply \<^verbatim>\<open>0x103\<close>, \<open>exampleLongReply\<close> is hex text of 33 bytes.
\<close>

definition exampleWord :: word_bytes where
  "exampleWord = replicate 30 0 @ [1, 3]"

definition exampleLongReply :: string where
  "exampleLongReply = ''0x'' @ replicate 66 CHR ''1''"


section \<open>Invariants\<close>


text \<open>
  With every registered slot, the registry holds the slots of its chain that have a key.
\<close>

definition ancestorsRegistered :: "slot list \<Rightarrow> bool" where
  "ancestorsRegistered ks \<longleftrightarrow>
     (\<forall>s \<in> set ks. \<forall>a \<in> set (chain (Some s)). key a \<noteq> None \<longrightarrow> a \<in> set ks)"

text \<open>Every word in the cache has the size of a word.\<close>

definition wordsNormalized :: "storage_cache \<Rightarrow> bool" where
  "wordsNormalized c \<longleftrightarrow> (\<forall>b a k w. cached c b a k = Some w \<longrightarrow> length w = WORD_SIZE)"

section \<open>Properties of the storage word cache\<close>

lemma toBytes_example: "toBytes ''0x103'' WORD_SIZE = exampleWord"
  by (simp add: toBytes_def hexDigits_def hexDigitValue_def WORD_SIZE_def exampleWord_def)

lemma toBytes_empty: "toBytes ''0x'' WORD_SIZE = []"
  by (simp add: toBytes_def hexDigits_def)

lemma length_hexPairs: "length (hexPairs xs) = length xs div 2"
  by (induction xs rule: hexPairs.induct) simp_all

lemma length_toBytes:
  "hexDigits data \<noteq> [] \<Longrightarrow>
   length (toBytes data len) = max len ((length (hexDigits data) + 1) div 2)"
  by (auto simp: toBytes_def Let_def length_hexPairs elim: oddE)

lemma length_toBytes_word: "wordText hex \<Longrightarrow> length (toBytes hex WORD_SIZE) = WORD_SIZE"
proof -
  assume "wordText hex"
  then have d: "hexDigits hex \<noteq> []" and l: "length (hexDigits hex) \<le> 64"
    by (simp_all add: wordText_def)
  from l have "(length (hexDigits hex) + 1) div 2 \<le> 32" by arith
  with d show ?thesis by (simp add: length_toBytes WORD_SIZE_def max_def)
qed

lemma cached_ensureLevels:
  "cached (ensureLevels c block address) b a k = cached c b a k"
  by (auto simp: cached_def ensureLevels_def Let_def split: option.splits if_splits)

lemma storeWord_ensureLevels:
  "\<exists>c'. storeWord (ensureLevels c block address) block address k word = Some c'"
  by (auto simp: storeWord_def ensureLevels_def Let_def split: option.splits if_splits)

lemma cached_storeWord:
  "storeWord c block address k word = Some c' \<Longrightarrow>
   cached c' b a k' = (if b = block \<and> a = address \<and> k' = k then Some word else cached c b a k')"
  by (auto simp: cached_def storeWord_def split: option.splits if_splits)

lemma getStorageStart_hit:
  "cached (storageCache st) block address (toString slot) = Some w \<Longrightarrow>
   getStorageStart address slot block st =
     (Returned w, st\<lparr>storageCache := ensureLevels (storageCache st) block address\<rparr>)"
  by (simp add: getStorageStart_def Let_def cached_ensureLevels)

lemma getStorageStart_miss:
  "cached (storageCache st) block address (toString slot) = None \<Longrightarrow>
   getStorageStart address slot block st =
     (Awaiting,
      \<lparr>storageCache = ensureLevels (storageCache st) block address,
       chainReads = chainReads st @ [(block, address, slot)]\<rparr>)"
  by (simp add: getStorageStart_def Let_def cached_ensureLevels)

lemma getStorageSettle_answer:
  assumes "storeWord (storageCache st) block address (toString slot) (toBytes hex WORD_SIZE) =
      Some c'"
  shows "getStorageSettle address slot block (Inr hex) st =
      (Inr (toBytes hex WORD_SIZE), st\<lparr>storageCache := c'\<rparr>)"
  using assms by (simp add: getStorageSettle_def Let_def)

lemma getStorageSettle_reject:
  "getStorageSettle address slot block (Inl x) st = (Inl x, st)"
  by (simp add: getStorageSettle_def)


lemma settle_after_miss:
  assumes "cached (storageCache st) block address (toString slot) = None"
  shows "\<exists>c'. storeWord (ensureLevels (storageCache st) block address) block address
        (toString slot) (toBytes hex WORD_SIZE) = Some c' \<and>
      getStorageSettle address slot block (Inr hex) (snd (getStorageStart address slot block st)) =
        (Inr (toBytes hex WORD_SIZE),
         \<lparr>storageCache = c', chainReads = chainReads st @ [(block, address, slot)]\<rparr>)"
proof -
  obtain c' where c': "storeWord (ensureLevels (storageCache st) block address) block address
      (toString slot) (toBytes hex WORD_SIZE) = Some c'"
    using storeWord_ensureLevels by blast
  with assms show ?thesis
    by (simp add: getStorageStart_miss getStorageSettle_def Let_def)
qed

lemma getStorage_hit:
  "cached (storageCache st) block address (toString slot) = Some w \<Longrightarrow>
   getStorage address slot block reply st =
     (Inr w, st\<lparr>storageCache := ensureLevels (storageCache st) block address\<rparr>)"
  by (simp add: getStorage_def getStorageStart_hit)

lemma getStorage_miss_answer:
  assumes "cached (storageCache st) block address (toString slot) = None"
  shows "\<exists>c'. storeWord (ensureLevels (storageCache st) block address) block address
        (toString slot) (toBytes hex WORD_SIZE) = Some c' \<and>
      getStorage address slot block (Inr hex) st =
        (Inr (toBytes hex WORD_SIZE),
         \<lparr>storageCache = c', chainReads = chainReads st @ [(block, address, slot)]\<rparr>)"
  using settle_after_miss [OF assms, of hex] assms
  by (simp add: getStorage_def getStorageStart_miss)







lemma wordsNormalized_runSegment:
  assumes "wordsNormalized (storageCache st)" and "wordSegment g"
  shows "wordsNormalized (storageCache (runSegment g st))"
proof (cases g)
  case (Start address slot block)
  with assms(1) show ?thesis
    by (auto simp: getStorageStart_def Let_def wordsNormalized_def cached_ensureLevels
        split: option.splits)
next
  case (Settle address slot block reply)
  show ?thesis
  proof (cases reply)
    case (Inl x)
    with Settle assms(1) show ?thesis by (simp add: getStorageSettle_reject)
  next
    case (Inr hex)
    with Settle assms(2) have len: "length (toBytes hex WORD_SIZE) = WORD_SIZE"
      by (simp add: length_toBytes_word)
    show ?thesis
    proof (cases "storeWord (storageCache st) block address (toString slot)
        (toBytes hex WORD_SIZE)")
      case None
      with Settle Inr assms(1) show ?thesis
        by (simp add: getStorageSettle_def Let_def)
    next
      case (Some c')
      with Settle Inr assms(1) len show ?thesis
        by (auto simp: getStorageSettle_def Let_def wordsNormalized_def cached_storeWord [OF Some])
    qed
  qed
qed

lemma wordsNormalized_afterSegments:
  "wordsNormalized (storageCache st) \<Longrightarrow> list_all wordSegment gs \<Longrightarrow>
   wordsNormalized (storageCache (afterSegments gs st))"
  by (induction gs arbitrary: st) (simp_all add: wordsNormalized_runSegment)

lemma wordsNormalized_newInstance: "wordsNormalized (storageCache newInstance)"
  by (simp add: wordsNormalized_def newInstance_def cached_def)

lemma getStorage_word:
  assumes "wordsNormalized (storageCache st)" and "wordReply reply"
    and "getStorage address slot block reply st = (Inr w, st')"
  shows "length w = WORD_SIZE"
proof (cases "cached (storageCache st) block address (toString slot)")
  case None
  show ?thesis
  proof (cases reply)
    case (Inl x)
    with None assms(3) show ?thesis
      by (simp add: getStorage_def getStorageStart_miss getStorageSettle_reject)
  next
    case (Inr hex)
    with assms(2) have "length (toBytes hex WORD_SIZE) = WORD_SIZE"
      by (simp add: length_toBytes_word)
    with getStorage_miss_answer [OF None, of hex] Inr assms(3) show ?thesis
      by auto
  qed
next
  case (Some v)
  with assms(1) have "length v = WORD_SIZE" by (auto simp: wordsNormalized_def)
  with Some assms(3) show ?thesis by (simp add: getStorage_hit)
qed

lemma afterSegments_append:
  "afterSegments (gs @ hs) st = afterSegments hs (afterSegments gs st)"
  by (induction gs arbitrary: st) simp_all

lemma getStorage_segments:
  "\<exists>gs. snd (getStorage address slot block reply st) = afterSegments gs st \<and>
     (wordReply reply \<longrightarrow> list_all wordSegment gs)"
proof (cases "cached (storageCache st) block address (toString slot)")
  case None
  then have "snd (getStorage address slot block reply st) =
      afterSegments [Start address slot block, Settle address slot block reply] st"
    by (simp add: getStorage_def getStorageStart_miss)
  moreover have "wordReply reply \<longrightarrow>
      list_all wordSegment [Start address slot block, Settle address slot block reply]"
    by simp
  ultimately show ?thesis by blast
next
  case (Some w)
  then have "snd (getStorage address slot block reply st) =
      afterSegments [Start address slot block] st"
    by (simp add: getStorage_def getStorageStart_hit)
  moreover have "list_all wordSegment [Start address slot block]" by simp
  ultimately show ?thesis by blast
qed

lemma getStorageCalls_segments:
  "\<exists>gs. getStorageCalls calls st = afterSegments gs st \<and>
     (list_all (\<lambda>(address, slot, block, reply). wordReply reply) calls \<longrightarrow>
        list_all wordSegment gs)"
proof (induction calls arbitrary: st)
  case Nil
  have "getStorageCalls [] st = afterSegments [] st \<and> list_all wordSegment []" by simp
  then show ?case by blast
next
  case (Cons call calls)
  obtain address slot block reply where call: "call = (address, slot, block, reply)"
    by (cases call) auto
  from getStorage_segments [of address slot block reply st]
  obtain gs where gs: "snd (getStorage address slot block reply st) = afterSegments gs st"
    and wgs: "wordReply reply \<longrightarrow> list_all wordSegment gs"
    by blast
  from Cons.IH [of "snd (getStorage address slot block reply st)"]
  obtain hs where hs: "getStorageCalls calls (snd (getStorage address slot block reply st)) =
      afterSegments hs (snd (getStorage address slot block reply st))"
    and whs: "list_all (\<lambda>(address, slot, block, reply). wordReply reply) calls \<longrightarrow>
      list_all wordSegment hs"
    by blast
  from call gs hs have "getStorageCalls (call # calls) st = afterSegments (gs @ hs) st"
    by (simp add: afterSegments_append)
  moreover from call wgs whs
  have "list_all (\<lambda>(address, slot, block, reply). wordReply reply) (call # calls) \<longrightarrow>
      list_all wordSegment (gs @ hs)"
    by simp
  ultimately show ?case by blast
qed

text \<open>
  Claim C10, as amended. \<^verbatim>\<open>getStorage\<close> returns exactly 32 bytes, after whatever segments
  of calls have run on the instance, when every answer of the chain, to earlier reads and to
  the read of this call, is hex text of at least one digit and at most 32 bytes. The
  conversion pads an answer to the word size and does not cut it: the bytes of an answer
  with digits number the larger of 32 and half the digits rounded up.
\<close>

theorem getStorage_word_size:
  assumes "list_all wordSegment segments" and "wordReply reply"
  shows "(\<forall>w st'. getStorage address slot block reply (afterSegments segments newInstance) =
        (Inr w, st') \<longrightarrow> length w = 32) \<and>
    (hexDigits hex \<noteq> [] \<longrightarrow>
      length (toBytes hex WORD_SIZE) = max 32 ((length (hexDigits hex) + 1) div 2))"
proof
  have "wordsNormalized (storageCache (afterSegments segments newInstance))"
    using wordsNormalized_newInstance assms(1) by (rule wordsNormalized_afterSegments)
  then show "\<forall>w st'. getStorage address slot block reply (afterSegments segments newInstance) =
        (Inr w, st') \<longrightarrow> length w = 32"
    using assms(2) getStorage_word [where reply = reply] by (fastforce simp: WORD_SIZE_def)
next
  show "hexDigits hex \<noteq> [] \<longrightarrow>
      length (toBytes hex WORD_SIZE) = max 32 ((length (hexDigits hex) + 1) div 2)"
    by (simp add: length_toBytes WORD_SIZE_def)
qed

theorem getStorage_word_size_witness:
  "list_all wordSegment
     [Start ''0xab'' 3 7, Start ''0xab'' 3 7,
      Settle ''0xab'' 3 7 (Inr ''0x103''), Settle ''0xab'' 3 7 (Inl LibraryError)] \<and>
   wordReply (Inr ''0x77'') \<and>
   fst (getStorage ''0xab'' 3 7 (Inr ''0x77'')
     (afterSegments
       [Start ''0xab'' 3 7, Start ''0xab'' 3 7,
        Settle ''0xab'' 3 7 (Inr ''0x103''), Settle ''0xab'' 3 7 (Inl LibraryError)]
       newInstance)) = Inr exampleWord \<and>
   length exampleWord = 32 \<and>
   length (toBytes ''0x103'' WORD_SIZE) = 32"
proof -
  let ?gs = "[Start ''0xab'' 3 7, Start ''0xab'' 3 7,
      Settle ''0xab'' 3 7 (Inr ''0x103''), Settle ''0xab'' 3 7 (Inl LibraryError)]"
  have s: "list_all wordSegment ?gs"
    by (simp add: wordText_def hexDigits_def)
  have r: "wordReply (Inr ''0x77'')"
    by (simp add: wordText_def hexDigits_def)
  have d: "hexDigits ''0x103'' \<noteq> []"
    by (simp add: hexDigits_def)
  have g: "fst (getStorage ''0xab'' 3 7 (Inr ''0x77'') (afterSegments ?gs newInstance)) =
      Inr exampleWord"
    by (simp add: getStorage_def getStorageStart_def getStorageSettle_def newInstance_def
        ensureLevels_def cached_def storeWord_def Let_def toBytes_example)
  from getStorage_word_size [OF s r, of "''0xab''" 3 7 "''0x103''"] g d
  have "length exampleWord = 32 \<and> length (toBytes ''0x103'' WORD_SIZE) = 32"
    by (cases "getStorage ''0xab'' 3 7 (Inr ''0x77'') (afterSegments ?gs newInstance)")
      (auto simp: hexDigits_def)
  with s r g show ?thesis by simp
qed

lemma hexDigits_exampleLongReply: "hexDigits exampleLongReply = replicate 66 CHR ''1''"
  by (simp add: hexDigits_def exampleLongReply_def)

text \<open>
  Claim C10 as stated fails: an answer of 33 bytes is returned with its 33 bytes, and the
  answer \<^verbatim>\<open>0x\<close> with no byte.
\<close>

theorem getStorage_word_size_counterexample:
  "fst (getStorage ''0xab'' 3 7 (Inr exampleLongReply) newInstance) =
     Inr (toBytes exampleLongReply WORD_SIZE) \<and>
   length (toBytes exampleLongReply WORD_SIZE) = 33 \<and>
   fst (getStorage ''0xab'' 3 7 (Inr ''0x'') newInstance) = Inr []"
proof -
  have miss: "cached (storageCache newInstance) 7 ''0xab'' (toString 3) = None"
    by (simp add: newInstance_def cached_def)
  have long: "fst (getStorage ''0xab'' 3 7 (Inr exampleLongReply) newInstance) =
      Inr (toBytes exampleLongReply WORD_SIZE)"
    using getStorage_miss_answer [OF miss, of exampleLongReply] by auto
  have len: "length (toBytes exampleLongReply WORD_SIZE) = 33"
    by (simp add: length_toBytes hexDigits_exampleLongReply WORD_SIZE_def)
  have none: "fst (getStorage ''0xab'' 3 7 (Inr ''0x'') newInstance) = Inr []"
    using getStorage_miss_answer [OF miss, of "''0x''"] by (auto simp: toBytes_empty)
  from long len none show ?thesis by simp
qed

section \<open>Properties of slot construction\<close>

declare constructSlot.simps [simp del]

lemma constructSlot_Nil: "constructSlot e v [] = locateVariable e v"
  by (simp add: constructSlot.simps)

lemma constructSlot_snoc:
  "constructSlot e v (indices @ [rawIndex]) =
     (case constructSlot e v indices of
        Inl x \<Rightarrow> Inl x
      | Inr None \<Rightarrow> Inr None
      | Inr (Some (parentSlot, parentDefinition)) \<Rightarrow>
          indexInto e parentSlot parentDefinition rawIndex)"
  by (subst constructSlot.simps) (simp split: sum.split option.split)

lemma constructSlot_no_slot:
  "locateVariable e v = Inr None \<Longrightarrow> constructSlot e v indices = Inr None"
  by (induction indices rule: rev_induct) (simp_all add: constructSlot_Nil constructSlot_snoc)

lemma constructSlot_throws:
  "locateVariable e v = Inl x \<Longrightarrow> constructSlot e v indices = Inl x"
  by (induction indices rule: rev_induct) (simp_all add: constructSlot_Nil constructSlot_snoc)

text \<open>The slots of the example contract.\<close>

lemmas example_slots = exampleRoot_def exampleInner_def exampleLeaf_def exampleBalance_def

lemma example_a_b_5:
  "constructSlot exampleEnv (VariableString ''a'') [RawString ''b'', RawNumber 5] =
     Inr (Some (exampleLeaf, OtherDefinition ''uint256'' 14))"
  by (simp add: exampleEnv_def locateVariable_def constructSlot.simps example_slots)

lemma example_a_b:
  "constructSlot exampleEnv (VariableString ''a'') [RawString ''b''] =
     Inr (Some (exampleInner,
       MappingDefinition [] 12 (OtherDefinition ''uint256'' 13) (OtherDefinition ''uint256'' 14)))"
  by (simp add: exampleEnv_def locateVariable_def constructSlot.simps example_slots)

lemma example_a:
  "constructSlot exampleEnv (VariableString ''a'') [] =
     Inr (Some (exampleRoot,
       MappingDefinition ''a'' 1 (OtherDefinition ''string'' 11)
         (MappingDefinition [] 12 (OtherDefinition ''uint256'' 13)
           (OtherDefinition ''uint256'' 14))))"
  by (simp add: exampleEnv_def locateVariable_def constructSlot.simps example_slots)

lemma example_xs:
  "constructSlot exampleEnv (VariableString ''xs'') [] =
     Inr (Some (Slot None 1 None None,
       ArrayDefinition ''xs'' 2 (OtherDefinition ''uint256'' 21) True))"
  by (simp add: exampleEnv_def locateVariable_def constructSlot.simps toString_def)

lemma example_halves:
  "constructSlot exampleEnv (VariableNumber 4) [] =
     Inr (Some (Slot None 2 None None,
       ArrayDefinition ''halves'' 4 (OtherDefinition ''uint128'' 41) False))"
  by (simp add: exampleEnv_def locateVariable_def constructSlot.simps)

lemma example_balances:
  "constructSlot exampleEnv (VariableString ''balances'') [] =
     Inr (Some (Slot None 4 None None,
       MappingDefinition ''balances'' 5 (OtherDefinition ''address'' 51)
         (OtherDefinition ''uint256'' 52)))"
  by (simp add: exampleEnv_def locateVariable_def constructSlot.simps toString_def)

lemma example_balance:
  "constructSlot exampleEnv (VariableString ''balances'') [RawString exampleAddress] =
     Inr (Some (exampleBalance, OtherDefinition ''uint256'' 52))"
  by (simp add: exampleEnv_def locateVariable_def constructSlot.simps example_slots toString_def
      exampleAddress_def)

lemma example_rows:
  "constructSlot exampleEnv (VariableString ''rows'') [] =
     Inr (Some (Slot None 5 None None,
       ArrayDefinition ''rows'' 6
         (ArrayDefinition [] 61 (OtherDefinition ''uint256'' 62) False) True))"
  by (simp add: exampleEnv_def locateVariable_def constructSlot.simps toString_def)

lemma arrayIndex_not_BN: "(\<forall>b. r \<noteq> RawBN b) \<Longrightarrow> arrayIndex e r = newBN e r"
  by (cases r) simp_all

text \<open>
  Claim C3, as amended. For an array-typed parent whose slot resolves and an index that is a
  \<^verbatim>\<open>BN\<close>, or that the \<^verbatim>\<open>BN\<close> constructor converts to an integer: when the storage size of
  the element is measured in words, \<^verbatim>\<open>constructSlot\<close> returns a slot on the parent slot
  whose offset is the index times that number of words and whose \<^verbatim>\<open>hashPath\<close> is the
  parent's \<^verbatim>\<open>isDynamicArray\<close> flag; when the storage size of the element is measured in
  bytes, whatever their number, it returns no slot.
\<close>

theorem constructSlot_array:
  assumes "constructSlot e v indices = Inr (Some (parentSlot, ArrayDefinition n i base dyn))"
  shows "(\<forall>w. storageSize e base = WordsLength w \<longrightarrow>
      constructSlot e v (indices @ [RawBN index]) =
        Inr (Some (Slot (Some parentSlot) (index * int w) (Some dyn) None, base)) \<and>
      (\<forall>r. (\<forall>b. r \<noteq> RawBN b) \<and> newBN e r = Inr index \<longrightarrow>
        constructSlot e v (indices @ [r]) =
          Inr (Some (Slot (Some parentSlot) (index * int w) (Some dyn) None, base)))) \<and>
    (\<forall>b. storageSize e base = BytesLength b \<longrightarrow>
      constructSlot e v (indices @ [RawBN index]) = Inr None \<and>
      (\<forall>r. (\<forall>b. r \<noteq> RawBN b) \<and> newBN e r = Inr index \<longrightarrow>
        constructSlot e v (indices @ [r]) = Inr None))"
  using assms by (simp add: constructSlot_snoc arrayIndex_not_BN)

theorem constructSlot_array_witness:
  "constructSlot exampleEnv (VariableString ''rows'') [RawNumber 3] =
     Inr (Some (Slot (Some (Slot None 5 None None)) 6 (Some True) None,
       ArrayDefinition [] 61 (OtherDefinition ''uint256'' 62) False)) \<and>
   constructSlot exampleEnv (VariableString ''rows'') [RawBN 2] =
     Inr (Some (Slot (Some (Slot None 5 None None)) 4 (Some True) None,
       ArrayDefinition [] 61 (OtherDefinition ''uint256'' 62) False)) \<and>
   constructSlot exampleEnv (VariableNumber 4) [RawBN 1] = Inr None \<and>
   constructSlot exampleEnv (VariableNumber 4) [RawNumber 1] = Inr None"
proof -
  have n3: "(\<forall>b. RawNumber 3 \<noteq> RawBN b) \<and> newBN exampleEnv (RawNumber 3) = Inr 3"
    by (simp add: exampleEnv_def)
  have n1: "(\<forall>b. RawNumber 1 \<noteq> RawBN b) \<and> newBN exampleEnv (RawNumber 1) = Inr 1"
    by (simp add: exampleEnv_def)
  have words: "storageSize exampleEnv (ArrayDefinition [] 61 (OtherDefinition ''uint256'' 62) False) =
      WordsLength 2"
    by (simp add: exampleEnv_def)
  have bytes: "storageSize exampleEnv (OtherDefinition ''uint128'' 41) = BytesLength 16"
    by (simp add: exampleEnv_def)
  from constructSlot_array [OF example_rows, of 3] words n3
  have r3: "constructSlot exampleEnv (VariableString ''rows'') [RawNumber 3] =
     Inr (Some (Slot (Some (Slot None 5 None None)) 6 (Some True) None,
       ArrayDefinition [] 61 (OtherDefinition ''uint256'' 62) False))"
    by simp
  from constructSlot_array [OF example_rows, of 2] words
  have r2: "constructSlot exampleEnv (VariableString ''rows'') [RawBN 2] =
     Inr (Some (Slot (Some (Slot None 5 None None)) 4 (Some True) None,
       ArrayDefinition [] 61 (OtherDefinition ''uint256'' 62) False))"
    by simp
  from constructSlot_array [OF example_halves, of 1] bytes n1
  have h: "constructSlot exampleEnv (VariableNumber 4) [RawBN 1] = Inr None \<and>
      constructSlot exampleEnv (VariableNumber 4) [RawNumber 1] = Inr None"
    by simp
  from r3 r2 h show ?thesis by simp
qed

text \<open>
  Claim C3 as stated fails. An element of \<^verbatim>\<open>uint[] xs\<close> takes 32 bytes, one whole word,
  and the index 5 converts to 5; the claim gives \<^verbatim>\<open>xs[5]\<close> a slot of offset 5, the code
  gives it no slot, since the size is measured in bytes.
\<close>

theorem constructSlot_array_counterexample:
  "constructSlot exampleEnv (VariableString ''xs'') [] =
     Inr (Some (Slot None 1 None None,
       ArrayDefinition ''xs'' 2 (OtherDefinition ''uint256'' 21) True)) \<and>
   storageSize exampleEnv (OtherDefinition ''uint256'' 21) = BytesLength WORD_SIZE \<and>
   newBN exampleEnv (RawNumber 5) = Inr 5 \<and>
   constructSlot exampleEnv (VariableString ''xs'') [RawNumber 5] = Inr None"
  by (simp add: exampleEnv_def locateVariable_def constructSlot.simps toString_def
      WORD_SIZE_def)

text \<open>
  Claim C4, as amended. For a mapping-typed parent whose slot resolves: when the coercion of
  the raw index to the mapping's declared key type gives a value, \<^verbatim>\<open>constructSlot\<close>
  returns a slot whose key is that value, whose path is the parent slot and whose offset is
  zero; when the coercion throws, \<^verbatim>\<open>constructSlot\<close> throws what it throws and returns no
  slot.
\<close>

theorem constructSlot_mapping:
  assumes "constructSlot e v indices =
      Inr (Some (parentSlot, MappingDefinition n i keyDefinition valueDefinition))"
  shows "(\<forall>k. wrapElementaryViaDefinition e rawIndex keyDefinition = Inr k \<longrightarrow>
      constructSlot e v (indices @ [rawIndex]) =
        Inr (Some (Slot (Some parentSlot) 0 None (Some k), valueDefinition))) \<and>
    (\<forall>x. wrapElementaryViaDefinition e rawIndex keyDefinition = Inl x \<longrightarrow>
      constructSlot e v (indices @ [rawIndex]) = Inl x)"
  using assms by (simp add: constructSlot_snoc)

theorem constructSlot_mapping_witness:
  "constructSlot exampleEnv (VariableString ''a'') [RawString ''b''] =
     Inr (Some (Slot (Some (Slot None 0 None None)) 0 None
       (Some (ElementaryValue (OtherDefinition ''string'' 11) (StringPayload ''b''))),
       MappingDefinition [] 12 (OtherDefinition ''uint256'' 13) (OtherDefinition ''uint256'' 14))) \<and>
   constructSlot exampleEnv (VariableString ''a'') [RawBoolean True] = Inl LibraryError"
proof -
  have k: "wrapElementaryViaDefinition exampleEnv (RawString ''b'') (OtherDefinition ''string'' 11) =
      Inr (ElementaryValue (OtherDefinition ''string'' 11) (StringPayload ''b''))"
    by (simp add: exampleEnv_def)
  have x: "wrapElementaryViaDefinition exampleEnv (RawBoolean True) (OtherDefinition ''string'' 11) =
      Inl LibraryError"
    by (simp add: exampleEnv_def)
  from constructSlot_mapping [OF example_a, of "RawString ''b''"] k
    constructSlot_mapping [OF example_a, of "RawBoolean True"] x
  show ?thesis
    by (simp add: exampleRoot_def)
qed

text \<open>
  Claim C4 as stated fails. \<^verbatim>\<open>balances\<close> is a mapping whose slot resolves, and
  \<^verbatim>\<open>0xabc\<close> is no address: the coercion throws, and \<^verbatim>\<open>constructSlot\<close> returns no slot.
\<close>

theorem constructSlot_mapping_counterexample:
  "constructSlot exampleEnv (VariableString ''balances'') [] =
     Inr (Some (Slot None 4 None None,
       MappingDefinition ''balances'' 5 (OtherDefinition ''address'' 51)
         (OtherDefinition ''uint256'' 52))) \<and>
   constructSlot exampleEnv (VariableString ''balances'') [RawString ''0xabc''] =
     Inl LibraryError"
  by (simp add: exampleEnv_def locateVariable_def constructSlot.simps toString_def)

text \<open>
  Claim C2. Slot construction is to return no slot on failure and never to throw. In the
  example contract, which has no variable \<^verbatim>\<open>nosuch\<close>, the base case throws, and so do
  \<^verbatim>\<open>watchMappingKey\<close> and \<^verbatim>\<open>unwatchMappingKey\<close>.
\<close>

theorem constructSlot_unknown_variable_throws:
  "constructSlot exampleEnv (VariableString ''nosuch'') [] = Inl TypeError \<and>
   watchMappingKey exampleEnv (VariableString ''nosuch'') [] [] = Inl TypeError \<and>
   unwatchMappingKey exampleEnv (VariableString ''nosuch'') [RawNumber 0] [] = Inl TypeError"
  by (simp add: exampleEnv_def locateVariable_def constructSlot.simps
      watchMappingKey_def unwatchMappingKey_def toString_def)

section \<open>Properties of the mapping key registry\<close>

lemma equalSlots_iff: "equalSlots a b \<longleftrightarrow> a = b"
  by (induction a b rule: equalSlots.induct) auto

lemma chain_suffix:
  "x \<in> set (chain so) \<Longrightarrow> \<exists>pre. chain so = pre @ chain (Some x)"
proof (induction so rule: chain.induct)
  case 1
  then show ?case by simp
next
  case (2 p off h k)
  show ?case
  proof (cases "x = Slot p off h k")
    case True
    then show ?thesis by (metis append_Nil)
  next
    case False
    with 2 obtain pre where "chain p = pre @ chain (Some x)" by auto
    then have "chain (Some (Slot p off h k)) = (Slot p off h k # pre) @ chain (Some x)" by simp
    then show ?thesis by blast
  qed
qed

lemma slot_not_on_parent_chain: "Slot p off h k \<notin> set (chain p)"
proof
  assume "Slot p off h k \<in> set (chain p)"
  then obtain pre where "chain p = pre @ chain (Some (Slot p off h k))"
    using chain_suffix by blast
  then have "length (chain p) = length pre + Suc (length (chain p))" by simp
  then show False by simp
qed

lemma chain_trans:
  "x \<in> set (chain (Some y)) \<Longrightarrow> y \<in> set (chain so) \<Longrightarrow> x \<in> set (chain so)"
  using chain_suffix by fastforce

lemma unwatchKeeps_iff: "unwatchKeeps target so \<longleftrightarrow> target \<notin> set (chain so)"
  by (induction target so rule: unwatchKeeps.induct) (auto simp: equalSlots_iff)

lemma list_all_not_equalSlots:
  "list_all (\<lambda>existingSlot. \<not> equalSlots (Some existingSlot) (Some s)) ks \<longleftrightarrow> s \<notin> set ks"
  by (auto simp: list_all_iff equalSlots_iff)

lemma watchLoop_eq:
  "watchLoop ks so =
     ks @ filter (\<lambda>s. key s \<noteq> None) (takeWhile (\<lambda>s. s \<notin> set ks) (chain so))"
proof (induction ks so rule: watchLoop.induct)
  case (1 ks)
  then show ?case by simp
next
  case (2 ks p off h k)
  let ?s = "Slot p off h k"
  show ?case
  proof (cases "?s \<in> set ks")
    case True
    then show ?thesis by (simp add: list_all_not_equalSlots)
  next
    case False
    have same: "takeWhile (\<lambda>x. x \<notin> set (ks @ [?s])) (chain p) =
        takeWhile (\<lambda>x. x \<notin> set ks) (chain p)"
      by (rule takeWhile_cong) (use slot_not_on_parent_chain [of p off h k] in auto)
    from False 2 same show ?thesis
      by (cases k) (simp_all add: list_all_not_equalSlots)
  qed
qed

lemma chain_split_at_registered:
  "a \<in> set (chain so) \<Longrightarrow>
     a \<in> set (takeWhile (\<lambda>s. s \<notin> set ks) (chain so)) \<or>
     (\<exists>r \<in> set ks. a \<in> set (chain (Some r)))"
proof (induction so rule: chain.induct)
  case 1
  then show ?case by simp
next
  case (2 p off h k)
  show ?case
  proof (cases "Slot p off h k \<in> set ks")
    case True
    with 2(2) show ?thesis by blast
  next
    case False
    with 2 show ?thesis by auto
  qed
qed

lemma watchLoop_registers:
  assumes "ancestorsRegistered ks" and "a \<in> set (chain so)" and "key a \<noteq> None"
  shows "a \<in> set (watchLoop ks so)"
proof -
  from chain_split_at_registered [OF assms(2), of ks]
  show ?thesis
  proof
    assume "a \<in> set (takeWhile (\<lambda>s. s \<notin> set ks) (chain so))"
    with assms(3) show ?thesis by (simp add: watchLoop_eq)
  next
    assume "\<exists>r \<in> set ks. a \<in> set (chain (Some r))"
    with assms(1,3) have "a \<in> set ks" by (auto simp: ancestorsRegistered_def)
    then show ?thesis by (simp add: watchLoop_eq)
  qed
qed

lemma ancestorsRegistered_watchLoop:
  assumes "ancestorsRegistered ks"
  shows "ancestorsRegistered (watchLoop ks so)"
  unfolding ancestorsRegistered_def
proof (intro ballI impI)
  fix s a
  assume s: "s \<in> set (watchLoop ks so)" and a: "a \<in> set (chain (Some s))" and k: "key a \<noteq> None"
  from s have "s \<in> set ks \<or> s \<in> set (chain so)"
    by (auto simp: watchLoop_eq dest: set_takeWhileD)
  then show "a \<in> set (watchLoop ks so)"
  proof
    assume "s \<in> set ks"
    with assms a k have "a \<in> set ks" by (auto simp: ancestorsRegistered_def)
    then show ?thesis by (simp add: watchLoop_eq)
  next
    assume "s \<in> set (chain so)"
    with a have "a \<in> set (chain so)" by (rule chain_trans)
    with assms k show ?thesis by (simp add: watchLoop_registers)
  qed
qed

lemma ancestorsRegistered_filter:
  assumes "ancestorsRegistered ks"
  shows "ancestorsRegistered (filter (\<lambda>s. unwatchKeeps target (Some s)) ks)"
  unfolding ancestorsRegistered_def
proof (intro ballI impI)
  fix s a
  assume s: "s \<in> set (filter (\<lambda>s. unwatchKeeps target (Some s)) ks)"
    and a: "a \<in> set (chain (Some s))" and k: "key a \<noteq> None"
  from s have sk: "s \<in> set ks" and keep: "target \<notin> set (chain (Some s))"
    by (simp_all add: unwatchKeeps_iff)
  from assms sk a k have "a \<in> set ks" by (auto simp: ancestorsRegistered_def)
  moreover have "target \<notin> set (chain (Some a))"
    using keep a chain_trans by blast
  ultimately show "a \<in> set (filter (\<lambda>s. unwatchKeeps target (Some s)) ks)"
    by (simp add: unwatchKeeps_iff)
qed

lemma ancestorsRegistered_registryCall:
  "ancestorsRegistered ks \<Longrightarrow> registryCall e c ks = Inr ks' \<Longrightarrow> ancestorsRegistered ks'"
  by (cases c)
    (auto simp: watchMappingKey_def unwatchMappingKey_def ancestorsRegistered_watchLoop
      ancestorsRegistered_filter split: sum.splits option.splits)

lemma ancestorsRegistered_afterCalls:
  "ancestorsRegistered ks \<Longrightarrow> ancestorsRegistered (afterCalls e calls ks)"
  by (induction calls arbitrary: ks)
    (auto split: sum.splits dest: ancestorsRegistered_registryCall)

lemma ancestorsRegistered_Nil: "ancestorsRegistered []"
  by (simp add: ancestorsRegistered_def)

lemma keyed_watchLoop:
  "list_all (\<lambda>s. key s \<noteq> None) ks \<Longrightarrow> list_all (\<lambda>s. key s \<noteq> None) (watchLoop ks so)"
  unfolding watchLoop_eq list_all_iff by auto

lemma keyed_filter:
  "list_all (\<lambda>s. key s \<noteq> None) ks \<Longrightarrow> list_all (\<lambda>s. key s \<noteq> None) (filter P ks)"
  unfolding list_all_iff by auto

lemma keyed_registryCall:
  assumes "list_all (\<lambda>s. key s \<noteq> None) ks" and "registryCall e c ks = Inr ks'"
  shows "list_all (\<lambda>s. key s \<noteq> None) ks'"
proof (cases c)
  case (Watch v indices)
  with assms(2) have "\<exists>so. ks' = watchLoop ks so"
    by (auto simp: watchMappingKey_def split: sum.splits)
  with assms(1) show ?thesis by (auto simp only: keyed_watchLoop)
next
  case (Unwatch v indices)
  with assms(2) have "ks' = ks \<or> (\<exists>P. ks' = filter P ks)"
    by (auto simp: unwatchMappingKey_def split: sum.splits option.splits)
  with assms(1) show ?thesis by (auto simp only: keyed_filter)
qed

lemma keyed_afterCalls:
  "list_all (\<lambda>s. key s \<noteq> None) ks \<Longrightarrow> list_all (\<lambda>s. key s \<noteq> None) (afterCalls e calls ks)"
proof (induction calls arbitrary: ks)
  case Nil
  then show ?case by simp
next
  case (Cons c calls)
  show ?case
  proof (cases "registryCall e c ks")
    case (Inl x)
    with Cons show ?thesis by simp
  next
    case (Inr ks')
    with Cons.prems have "list_all (\<lambda>s. key s \<noteq> None) ks'" by (rule keyed_registryCall)
    then have "list_all (\<lambda>s. key s \<noteq> None) (afterCalls e calls ks')" by (rule Cons.IH)
    with Inr show ?thesis by simp
  qed
qed

text \<open>
  Claim C9. Registry invariant: after any sequence of \<^verbatim>\<open>watchMappingKey\<close> and
  \<^verbatim>\<open>unwatchMappingKey\<close> calls on a new instance, every slot in \<^verbatim>\<open>mappingKeys\<close> has a
  defined key.
\<close>

theorem registry_holds_keyed_slots:
  "list_all (\<lambda>s. key s \<noteq> None) (afterCalls e calls [])"
  by (rule keyed_afterCalls) simp

text \<open>
  Claim C5. When the slot chain of a \<^verbatim>\<open>watchMappingKey\<close> call resolves, the call appends
  to the registry the slots of the chain that have a key, walking from the leaf toward the
  root and stopping at the first slot that is already registered (equality is structural).
  On a registry that calls of the two methods have produced, every slot of the chain that
  has a key is registered afterwards: for \<^verbatim>\<open>watch("a", "b", 5)\<close> on a nested mapping, the
  slot of \<^verbatim>\<open>a["b"]\<close> as well as the slot of \<^verbatim>\<open>a["b"][5]\<close>.
\<close>

theorem watch_registers_chain:
  assumes "constructSlot e v indices = Inr (Some (leaf, d))"
  shows "watchMappingKey e v indices ks =
      Inr (ks @ filter (\<lambda>s. key s \<noteq> None)
        (takeWhile (\<lambda>s. s \<notin> set ks) (chain (Some leaf)))) \<and>
    (\<exists>ks'. watchMappingKey e v indices (afterCalls e calls []) = Inr ks' \<and>
      (\<forall>s \<in> set (chain (Some leaf)). key s \<noteq> None \<longrightarrow> s \<in> set ks'))"
proof
  show "watchMappingKey e v indices ks =
      Inr (ks @ filter (\<lambda>s. key s \<noteq> None)
        (takeWhile (\<lambda>s. s \<notin> set ks) (chain (Some leaf))))"
    using assms by (simp add: watchMappingKey_def watchLoop_eq)
next
  have "ancestorsRegistered (afterCalls e calls [])"
    by (rule ancestorsRegistered_afterCalls) (rule ancestorsRegistered_Nil)
  then have "\<forall>s \<in> set (chain (Some leaf)). key s \<noteq> None \<longrightarrow>
      s \<in> set (watchLoop (afterCalls e calls []) (Some leaf))"
    by (blast intro: watchLoop_registers)
  then show "\<exists>ks'. watchMappingKey e v indices (afterCalls e calls []) = Inr ks' \<and>
      (\<forall>s \<in> set (chain (Some leaf)). key s \<noteq> None \<longrightarrow> s \<in> set ks')"
    using assms by (simp add: watchMappingKey_def)
qed

theorem watch_registers_chain_witness:
  "constructSlot exampleEnv (VariableString ''a'') [RawString ''b'', RawNumber 5] =
     Inr (Some (exampleLeaf, OtherDefinition ''uint256'' 14)) \<and>
   watchMappingKey exampleEnv (VariableString ''a'') [RawString ''b'', RawNumber 5] [] =
     Inr [exampleLeaf, exampleInner] \<and>
   watchMappingKey exampleEnv (VariableString ''a'') [RawString ''b'', RawNumber 5]
     [exampleInner] = Inr [exampleInner, exampleLeaf] \<and>
   (\<exists>ks'. watchMappingKey exampleEnv (VariableString ''a'') [RawString ''b'', RawNumber 5]
       (afterCalls exampleEnv [Watch (VariableString ''balances'') [RawString exampleAddress]] []) =
       Inr ks' \<and>
     exampleInner \<in> set ks' \<and> exampleLeaf \<in> set ks')"
proof -
  have c: "chain (Some exampleLeaf) = [exampleLeaf, exampleInner, exampleRoot]"
    by (simp add: example_slots)
  have k: "key exampleLeaf \<noteq> None" "key exampleInner \<noteq> None" "key exampleRoot = None"
    by (simp_all add: example_slots)
  have d: "exampleLeaf \<noteq> exampleInner" "exampleRoot \<noteq> exampleInner"
    by (simp_all add: example_slots)
  from watch_registers_chain [OF example_a_b_5, of "[]"] c k
  have w1: "watchMappingKey exampleEnv (VariableString ''a'') [RawString ''b'', RawNumber 5] [] =
      Inr [exampleLeaf, exampleInner]"
    by simp
  from watch_registers_chain [OF example_a_b_5, of "[exampleInner]"] c k d
  have w2: "watchMappingKey exampleEnv (VariableString ''a'') [RawString ''b'', RawNumber 5]
      [exampleInner] = Inr [exampleInner, exampleLeaf]"
    by simp
  from watch_registers_chain [OF example_a_b_5, of "[]"
      "[Watch (VariableString ''balances'') [RawString exampleAddress]]"]
  obtain ks' where ks': "watchMappingKey exampleEnv (VariableString ''a'')
      [RawString ''b'', RawNumber 5]
      (afterCalls exampleEnv [Watch (VariableString ''balances'') [RawString exampleAddress]] []) =
      Inr ks'"
    and reg: "\<forall>s \<in> set (chain (Some exampleLeaf)). key s \<noteq> None \<longrightarrow> s \<in> set ks'"
    by blast
  from reg c k have "exampleInner \<in> set ks' \<and> exampleLeaf \<in> set ks'"
    by simp
  with ks' have w3: "\<exists>ks'. watchMappingKey exampleEnv (VariableString ''a'')
      [RawString ''b'', RawNumber 5]
      (afterCalls exampleEnv [Watch (VariableString ''balances'') [RawString exampleAddress]] []) =
      Inr ks' \<and> exampleInner \<in> set ks' \<and> exampleLeaf \<in> set ks'"
    by blast
  from example_a_b_5 w1 w2 w3 show ?thesis by simp
qed

text \<open>
  Claim C6. When the target slot of an \<^verbatim>\<open>unwatchMappingKey\<close> call resolves, the call
  removes exactly the registered slots whose chain toward the root contains the target (the
  target and its descendants) and keeps all others, in their order.
\<close>

theorem unwatch_removes_descendants:
  assumes "constructSlot e v indices = Inr (Some (target, d))"
  shows "unwatchMappingKey e v indices ks =
      Inr (filter (\<lambda>s. target \<notin> set (chain (Some s))) ks)"
  using assms by (simp add: unwatchMappingKey_def unwatchKeeps_iff)

theorem unwatch_removes_descendants_witness:
  "constructSlot exampleEnv (VariableString ''a'') [RawString ''b''] =
     Inr (Some (exampleInner,
       MappingDefinition [] 12 (OtherDefinition ''uint256'' 13) (OtherDefinition ''uint256'' 14))) \<and>
   unwatchMappingKey exampleEnv (VariableString ''a'') [RawString ''b'']
     [exampleLeaf, exampleBalance, exampleInner] = Inr [exampleBalance]"
proof -
  have c: "exampleInner \<in> set (chain (Some exampleLeaf))"
    "exampleInner \<in> set (chain (Some exampleInner))"
    "exampleInner \<notin> set (chain (Some exampleBalance))"
    by (simp_all add: example_slots)
  from unwatch_removes_descendants [OF example_a_b,
      of "[exampleLeaf, exampleBalance, exampleInner]"] c example_a_b
  show ?thesis by simp
qed

lemma ancestor_keeps_leaf:
  "x \<in> set (chain (path t)) \<Longrightarrow> t \<notin> set (chain (Some x))"
proof
  assume x: "x \<in> set (chain (path t))" and t: "t \<in> set (chain (Some x))"
  then have "t \<in> set (chain (path t))" by (rule chain_trans [rotated])
  then show False using slot_not_on_parent_chain [of "path t" "offset t" "hashPath t" "key t"]
    by simp
qed

lemma watchLoop_Some:
  "watchLoop ks (Some t) =
     ks @ (if t \<in> set ks then []
           else filter (\<lambda>s. key s \<noteq> None) [t] @
             filter (\<lambda>s. key s \<noteq> None) (takeWhile (\<lambda>s. s \<notin> set ks) (chain (path t))))"
  by (cases t) (simp add: watchLoop_eq)

lemma watch_then_unwatch:
  "filter (\<lambda>s. t \<notin> set (chain (Some s))) (watchLoop ks (Some t)) =
   filter (\<lambda>s. t \<notin> set (chain (Some s))) ks @
     (if t \<in> set ks then []
      else filter (\<lambda>s. key s \<noteq> None) (takeWhile (\<lambda>s. s \<notin> set ks) (chain (path t))))"
proof -
  define keep where "keep = (\<lambda>s. t \<notin> set (chain (Some s)))"
  define anc where
    "anc = filter (\<lambda>s. key s \<noteq> None) (takeWhile (\<lambda>s. s \<notin> set ks) (chain (path t)))"
  have "\<forall>x \<in> set anc. keep x"
    unfolding anc_def keep_def using ancestor_keeps_leaf [of _ t]
    by (auto dest: set_takeWhileD)
  then have anc: "filter keep anc = anc" by (simp only: filter_id_conv)
  have "t \<in> set (chain (Some t))" by (cases t) simp
  then have leaf: "filter keep (filter (\<lambda>s. key s \<noteq> None) [t]) = []"
    by (simp add: keep_def)
  have "filter keep (watchLoop ks (Some t)) =
      filter keep ks @ (if t \<in> set ks then [] else anc)"
  proof (cases "t \<in> set ks")
    case True
    then show ?thesis by (simp add: watchLoop_Some)
  next
    case False
    then have "watchLoop ks (Some t) = ks @ filter (\<lambda>s. key s \<noteq> None) [t] @ anc"
      by (simp only: watchLoop_Some anc_def if_False)
    then have "filter keep (watchLoop ks (Some t)) =
        filter keep ks @ filter keep (filter (\<lambda>s. key s \<noteq> None) [t]) @ filter keep anc"
      by (simp only: filter_append)
    with False show ?thesis by (simp only: anc leaf append_Nil if_False)
  qed
  then show ?thesis by (simp only: keep_def anc_def)
qed

lemma filter_append_fresh_eq:
  assumes "set ys \<inter> set xs = {}"
  shows "filter P xs @ ys = xs \<longleftrightarrow> (\<forall>x \<in> set xs. P x) \<and> ys = []"
proof
  assume eq: "filter P xs @ ys = xs"
  have "ys = []"
  proof (rule ccontr)
    assume "ys \<noteq> []"
    then have "last ys \<in> set ys" by simp
    moreover from \<open>ys \<noteq> []\<close> have "last ys = last (filter P xs @ ys)" by simp
    then have "last ys \<in> set xs" using eq \<open>ys \<noteq> []\<close>
      by (metis Nil_is_append_conv last_in_set)
    ultimately show False using assms by blast
  qed
  with eq show "(\<forall>x \<in> set xs. P x) \<and> ys = []" by (simp add: filter_id_conv)
next
  assume "(\<forall>x \<in> set xs. P x) \<and> ys = []"
  then show "filter P xs @ ys = xs" by (simp add: filter_id_conv)
qed

text \<open>
  Claim C7, as amended. When the slot chain resolves, \<^verbatim>\<open>watchMappingKey\<close> followed by
  \<^verbatim>\<open>unwatchMappingKey\<close> with the same arguments gives back the registry of before the
  watch exactly when, before the watch, no registered slot has the watched slot on its chain
  (the slot is not registered, nor a descendant of it) and the watch registers no proper
  ancestor of the watched slot (each ancestor with a key, up to the first registered slot of
  the chain, is already registered).
\<close>

theorem watch_unwatch_restores_iff:
  assumes "constructSlot e v indices = Inr (Some (t, d))"
  shows "\<exists>ks' ks''.
    watchMappingKey e v indices ks = Inr ks' \<and>
    unwatchMappingKey e v indices ks' = Inr ks'' \<and>
    (ks'' = ks \<longleftrightarrow>
       (\<forall>s \<in> set ks. t \<notin> set (chain (Some s))) \<and>
       filter (\<lambda>s. key s \<noteq> None)
         (takeWhile (\<lambda>s. s \<notin> set ks) (chain (path t))) = [])"
proof -
  let ?keep = "\<lambda>s. t \<notin> set (chain (Some s))"
  let ?anc = "filter (\<lambda>s. key s \<noteq> None) (takeWhile (\<lambda>s. s \<notin> set ks) (chain (path t)))"
  have w: "watchMappingKey e v indices ks = Inr (watchLoop ks (Some t))"
    using assms by (simp add: watchMappingKey_def)
  have u: "unwatchMappingKey e v indices (watchLoop ks (Some t)) =
      Inr (filter ?keep (watchLoop ks (Some t)))"
    using assms by (simp add: unwatchMappingKey_def unwatchKeeps_iff)
  have fresh: "set ?anc \<inter> set ks = {}"
    by (auto dest: set_takeWhileD)
  have "filter ?keep (watchLoop ks (Some t)) = ks \<longleftrightarrow> (\<forall>s \<in> set ks. ?keep s) \<and> ?anc = []"
  proof (cases "t \<in> set ks")
    case True
    have "t \<in> set (chain (Some t))" by (cases t) simp
    with True have notall: "\<not> (\<forall>s \<in> set ks. ?keep s)" by blast
    then have "filter ?keep ks \<noteq> ks" by (simp add: filter_id_conv)
    with True notall show ?thesis by (simp add: watch_then_unwatch)
  next
    case False
    then show ?thesis
      using filter_append_fresh_eq [OF fresh, of ?keep] by (simp add: watch_then_unwatch)
  qed
  with w u show ?thesis by simp
qed

theorem watch_unwatch_restores_iff_witness:
  "constructSlot exampleEnv (VariableString ''balances'') [RawString exampleAddress] =
     Inr (Some (exampleBalance, OtherDefinition ''uint256'' 52)) \<and>
   watchMappingKey exampleEnv (VariableString ''balances'') [RawString exampleAddress] [] =
     Inr [exampleBalance] \<and>
   unwatchMappingKey exampleEnv (VariableString ''balances'') [RawString exampleAddress]
     [exampleBalance] = Inr []"
proof -
  have w: "watchMappingKey exampleEnv (VariableString ''balances'') [RawString exampleAddress] [] =
      Inr [exampleBalance]"
    by (simp add: watchMappingKey_def example_balance) (simp add: example_slots)
  from watch_unwatch_restores_iff [OF example_balance, of "[]"] w
  have "\<exists>ks''. unwatchMappingKey exampleEnv (VariableString ''balances'') [RawString exampleAddress]
      [exampleBalance] = Inr ks'' \<and>
      (ks'' = [] \<longleftrightarrow>
        filter (\<lambda>s. key s \<noteq> None) (takeWhile (\<lambda>s. s \<notin> set []) (chain (path exampleBalance))) = [])"
    by simp
  then have "unwatchMappingKey exampleEnv (VariableString ''balances'') [RawString exampleAddress]
      [exampleBalance] = Inr []"
    by (auto simp: example_slots)
  with example_balance w show ?thesis by simp
qed

text \<open>
  Claim C7 as stated fails: on an empty registry, with no key added by anyone else,
  \<^verbatim>\<open>watch("a", "b", 5)\<close> registers the slots of \<^verbatim>\<open>a["b"][5]\<close> and of \<^verbatim>\<open>a["b"]\<close>, and
  \<^verbatim>\<open>unwatch("a", "b", 5)\<close> removes the first only.
\<close>

theorem watch_unwatch_counterexample:
  "watchMappingKey exampleEnv (VariableString ''a'') [RawString ''b'', RawNumber 5] [] =
     Inr [exampleLeaf, exampleInner] \<and>
   unwatchMappingKey exampleEnv (VariableString ''a'') [RawString ''b'', RawNumber 5]
     [exampleLeaf, exampleInner] = Inr [exampleInner] \<and>
   [exampleInner] \<noteq> []"
  by (simp add: watchMappingKey_def unwatchMappingKey_def example_a_b_5)
    (simp add: example_slots)

text \<open>
  Claim C8. For a variable whose pointer is the constant marker, \<^verbatim>\<open>constructSlot\<close> returns
  no slot, with any indices, and \<^verbatim>\<open>watchMappingKey\<close> and \<^verbatim>\<open>unwatchMappingKey\<close> return
  without an error and leave the registry as it was.
\<close>

theorem constant_variable_no_slot:
  assumes "find (matchesVariable e v) (stateVariableReferences e) = Some a"
    and "alloc_pointer a = ConstantDefinitionPointer"
  shows "constructSlot e v indices = Inr None \<and>
    watchMappingKey e v indices mappingKeys = Inr mappingKeys \<and>
    unwatchMappingKey e v indices mappingKeys = Inr mappingKeys"
proof -
  from assms have "locateVariable e v = Inr None"
    by (simp add: locateVariable_def)
  then have "constructSlot e v indices = Inr None"
    by (rule constructSlot_no_slot)
  then show ?thesis
    by (simp add: watchMappingKey_def unwatchMappingKey_def)
qed

theorem constant_variable_no_slot_witness:
  "constructSlot exampleEnv (VariableString ''c'') [RawNumber 0] = Inr None \<and>
   watchMappingKey exampleEnv (VariableString ''c'') [RawNumber 0] [exampleInner] =
     Inr [exampleInner] \<and>
   unwatchMappingKey exampleEnv (VariableString ''c'') [RawNumber 0] [exampleInner] =
     Inr [exampleInner]"
proof -
  have f: "find (matchesVariable exampleEnv (VariableString ''c''))
      (stateVariableReferences exampleEnv) =
      Some \<lparr>alloc_definition = OtherDefinition ''c'' 3, alloc_pointer = ConstantDefinitionPointer\<rparr>"
    by (simp add: exampleEnv_def toString_def)
  have p: "alloc_pointer
      \<lparr>alloc_definition = OtherDefinition ''c'' 3, alloc_pointer = ConstantDefinitionPointer\<rparr> =
      ConstantDefinitionPointer"
    by simp
  from constant_variable_no_slot [OF f p, of "[RawNumber 0]" "[exampleInner]"]
  show ?thesis by simp
qed

end
